theory Spec2Isabelle
  imports Main "HOL-Library.Word"
begin

unbundle bit_operations_syntax

section \<open>Python values and failures\<close>

text \<open>
  The program is Python: its integers are unbounded, so they are modelled as \<open>int\<close>, and
  the bitwise operators \<open>&\<close>, \<open>|\<close>, \<open>~\<close> are the operations \<open>AND\<close>, \<open>OR\<close>,
  \<open>NOT\<close> of \<open>int\<close> (infinite two's complement, as in Python). Every \<open>assert\<close> and every
  raise is a value \<open>Inl e\<close> of the result type \<open>error + 'a\<close>.
\<close>

datatype error = AssertionError | ValueError | IndexError | CollaboratorFailure

text \<open>\<open>x << n\<close> and \<open>x >> n\<close>: Python raises \<open>ValueError\<close> on a negative shift count.\<close>

definition py_lshift :: "int \<Rightarrow> int \<Rightarrow> error + int" where
  "py_lshift x n = (if n < 0 then Inl ValueError else Inr (push_bit (nat n) x))"

definition py_rshift :: "int \<Rightarrow> int \<Rightarrow> error + int" where
  "py_rshift x n = (if n < 0 then Inl ValueError else Inr (drop_bit (nat n) x))"

text \<open>Sequencing of computations that may raise: the first failure is the result.\<close>

definition and_then :: "error + 'a \<Rightarrow> ('a \<Rightarrow> error + 'b) \<Rightarrow> error + 'b" where
  "and_then r f = (case r of Inl e \<Rightarrow> Inl e | Inr x \<Rightarrow> f x)"

text \<open>
  \<open>int(s, 2)\<close> on a string of binary digits; the empty string and any other character
  raise \<open>ValueError\<close>. (Only strings \<open>width * "1"\<close> reach it in this program.)
\<close>

fun bin_digits :: "string \<Rightarrow> int \<Rightarrow> error + int" where
  "bin_digits [] acc = Inr acc"
| "bin_digits (c # cs) acc =
     (if c = CHR ''0'' then bin_digits cs (2 * acc)
      else if c = CHR ''1'' then bin_digits cs (2 * acc + 1)
      else Inl ValueError)"

definition int_base2 :: "string \<Rightarrow> error + int" where
  "int_base2 s = (if s = [] then Inl ValueError else bin_digits s 0)"

section \<open>bitfield.py\<close>

definition WORD_SIZE :: int where
  "WORD_SIZE = 32"

record BitField =
  from_bit :: int
  to_bit :: int
  field_width :: int
  mask :: int
  maskout :: int
  comp :: int
  sign_bit :: int

text \<open>\<open>BitField._construct_mask\<close>: \<open>assert width >= 0; return int(width * "1", 2)\<close>.\<close>

definition construct_mask :: "int \<Rightarrow> error + int" where
  "construct_mask width =
     (if \<not> width \<ge> 0 then Inl AssertionError
      else int_base2 (replicate (nat width) CHR ''1''))"

text \<open>\<open>BitField.__init__\<close>, with its two assertions in the source's order.\<close>

definition BitField_init :: "int \<Rightarrow> int \<Rightarrow> error + BitField" where
  "BitField_init from_b to_b =
     (if \<not> (0 \<le> from_b \<and> from_b < WORD_SIZE) then Inl AssertionError
      else if \<not> (from_b \<le> to_b \<and> to_b \<le> WORD_SIZE) then Inl AssertionError
      else
        let width = 1 + to_b - from_b in
        and_then (construct_mask width) (\<lambda>low_mask.
        and_then (py_lshift low_mask from_b) (\<lambda>m.
        and_then (py_lshift 1 width) (\<lambda>c.
        and_then (py_lshift 1 (width - 1)) (\<lambda>sb.
          Inr \<lparr> from_bit = from_b, to_bit = to_b, field_width = width,
                mask = m, maskout = NOT m, comp = c, sign_bit = sb \<rparr>)))))"

text \<open>\<open>BitField.insert\<close> (the method's name clashes with the constant of sets).\<close>

definition insert_field :: "BitField \<Rightarrow> int \<Rightarrow> int \<Rightarrow> error + int" where
  "insert_field self field_value word =
     and_then (py_lshift field_value (from_bit self)) (\<lambda>in_place.
       let in_place = in_place AND mask self;
           word = word AND maskout self
       in Inr (word OR in_place))"

text \<open>\<open>BitField.extract\<close> (\<open>extract\<close> is a command name of Isabelle/HOL).\<close>

definition extract_field :: "BitField \<Rightarrow> int \<Rightarrow> error + int" where
  "extract_field self word =
     (let field = word AND mask self in py_rshift field (from_bit self))"

definition extract_signed :: "BitField \<Rightarrow> int \<Rightarrow> error + int" where
  "extract_signed self word =
     and_then (extract_field self word) (\<lambda>unsigned.
     and_then (py_rshift unsigned (field_width self - 1)) (\<lambda>top.
       if top = 1 then Inr (unsigned - comp self) else Inr unsigned))"

text \<open>
  The standalone \<open>sign_extend\<close>. Its calls of \<open>log.debug\<close> only format their
  arguments and change nothing; its two assertions come first.
\<close>

definition sign_extend :: "int \<Rightarrow> int \<Rightarrow> error + int" where
  "sign_extend field width =
     (if \<not> width > 1 then Inl AssertionError
      else
        and_then (py_lshift 1 (width + 1)) (\<lambda>bound.
          if \<not> (0 \<le> field \<and> field < bound) then Inl AssertionError
          else
            and_then (py_lshift 1 (width - 1)) (\<lambda>sign_b.
              let msk = sign_b - 1 in
              if field AND sign_b \<noteq> 0 then Inr ((field AND msk) - sign_b)
              else Inr field)))"

section \<open>cpu.py\<close>

subsection \<open>The collaborators\<close>

text \<open>
  \<open>cpu.py\<close> imports \<open>instr_format\<close>, \<open>register\<close>, \<open>alu\<close>, \<open>mvc\<close> and \<open>memory\<close>, none of
  which is among the source files. What \<open>CPU.step\<close> itself does with them is modelled
  from \<open>cpu.py\<close>; what they compute is a parameter.
\<close>

text \<open>
  Modelled from the spec: the opcode enumeration \<open>OpCode\<close> of \<open>instr_format\<close>, which is
  not among the source files. \<open>CPU.step\<close> tells \<open>LOAD\<close>, \<open>STORE\<close> and \<open>HALT\<close> apart
  from each other and from all other opcodes; \<open>ALU_OP n\<close> stands for any other member.
\<close>

datatype OpCode = HALT | LOAD | STORE | ALU_OP nat

text \<open>
  Modelled from the spec: the class \<open>Instruction\<close> of \<open>instr_format\<close>, which is not among
  the source files, with the fields that \<open>CPU.step\<close> reads. The type \<open>'c\<close> is the
  condition-flag enumeration \<open>CondFlag\<close>.
\<close>

record 'c Instruction =
  cond :: 'c
  op :: OpCode
  reg_target :: int
  reg_src1 :: int
  reg_src2 :: int
  offset :: int

text \<open>
  The parameters: the decoder, the ALU, the memory connection (over a memory of type
  \<open>'m\<close>) and the condition flags with their \<open>&\<close> and the member \<open>NEVER\<close>. Each
  collaborator call may raise, which ends the step.
\<close>

record ('c, 'm) collaborators =
  decode :: "int \<Rightarrow> error + 'c Instruction"
  alu_exec :: "OpCode \<Rightarrow> int \<Rightarrow> int \<Rightarrow> error + int \<times> 'c"
  memory_get :: "'m \<Rightarrow> int \<Rightarrow> error + int"
  memory_put :: "'m \<Rightarrow> int \<Rightarrow> int \<Rightarrow> error + 'm"
  flag_and :: "'c \<Rightarrow> 'c \<Rightarrow> 'c"
  NEVER :: 'c

text \<open>
  Modelled from the spec: the classes \<open>Register\<close> and \<open>ZeroRegister\<close> of \<open>register\<close>, which
  is not among the source files. A register gets the value last put; the \<open>ZeroRegister\<close>,
  which \<open>CPU.__init__\<close> places at index 0, ignores \<open>put\<close> and always gets zero. The
  sixteen registers are the function from their index to the value they hold.
\<close>

definition register_get :: "(nat \<Rightarrow> int) \<Rightarrow> nat \<Rightarrow> int" where
  "register_get regs i = (if i = 0 then 0 else regs i)"

definition register_put :: "(nat \<Rightarrow> int) \<Rightarrow> nat \<Rightarrow> int \<Rightarrow> nat \<Rightarrow> int" where
  "register_put regs i v = (if i = 0 then regs else regs(i := v))"

text \<open>
  \<open>self.registers[i]\<close> on the tuple of sixteen registers: Python counts a negative index
  from the end and raises \<open>IndexError\<close> out of range.
\<close>

definition tuple_index :: "int \<Rightarrow> error + nat" where
  "tuple_index i =
     (if 0 \<le> i \<and> i < 16 then Inr (nat i)
      else if - 16 \<le> i \<and> i < 0 then Inr (nat (i + 16))
      else Inl IndexError)"

subsection \<open>The CPU\<close>

record ('c, 'm) CPU =
  memory :: 'm
  registers :: "nat \<Rightarrow> int"
  cc :: 'c
  halted :: bool

text \<open>
  The event \<open>CPUStep\<close>. Its \<open>subject\<close> is the CPU itself: what a listener sees there is
  the state of the CPU at the time of the notification, so the event holds that state.
\<close>

record ('c, 'm) CPUStep =
  subject :: "('c, 'm) CPU"
  pc_addr :: int
  instr_word :: int
  instr :: "'c Instruction"

text \<open>
  The part of \<open>CPU.step\<close> under \<open># Execute\<close>, from the decoded instruction on. The
  program counter \<open>self.pc\<close> is \<open>self.registers[15]\<close>.
\<close>

definition execute ::
  "('c, 'm) collaborators \<Rightarrow> ('c, 'm) CPU \<Rightarrow> 'c Instruction \<Rightarrow> error + ('c, 'm) CPU" where
  "execute env self ins =
     (let predicate = cond ins in
      if flag_and env (cc self) predicate \<noteq> NEVER env then
        let opcode = op ins in
        and_then (tuple_index (reg_target ins)) (\<lambda>target.
        and_then (tuple_index (reg_src1 ins)) (\<lambda>src1.
        let left = register_get (registers self) src1 in
        and_then (tuple_index (reg_src2 ins)) (\<lambda>src2.
        let right = register_get (registers self) src2 + offset ins;
            self = self\<lparr>registers :=
                     register_put (registers self) 15 (register_get (registers self) 15 + 1)\<rparr>
        in
        and_then (alu_exec env opcode left right) (\<lambda>(result, cc').
        let self = self\<lparr>cc := cc'\<rparr> in
        if opcode = LOAD then
          and_then (memory_get env (memory self) result) (\<lambda>memval.
            Inr (self\<lparr>registers := register_put (registers self) target memval\<rparr>))
        else if opcode = STORE then
          and_then (memory_put env (memory self) result (register_get (registers self) target))
            (\<lambda>m. Inr (self\<lparr>memory := m\<rparr>))
        else if opcode = HALT then
          Inr (self\<lparr>halted := True\<rparr>)
        else
          Inr (self\<lparr>registers := register_put (registers self) target result\<rparr>)))))
      else
        Inr (self\<lparr>registers :=
               register_put (registers self) 15 (register_get (registers self) 15 + 1)\<rparr>))"

text \<open>
  \<open>CPU.step\<close>: fetch, decode, notify, execute. The result is the list of the events
  passed to \<open>notify_all\<close> during the step, and the CPU after the step or the failure
  that ended it. (\<open>notify_all\<close> is inherited from \<open>MVCListenable\<close> of \<open>mvc\<close>, which is not
  among the source files: each call is one notification, of all registered listeners.)
\<close>

definition step ::
  "('c, 'm) collaborators \<Rightarrow> ('c, 'm) CPU \<Rightarrow> ('c, 'm) CPUStep list \<times> (error + ('c, 'm) CPU)" where
  "step env self =
     (let instr_addr = register_get (registers self) 15 in
      case memory_get env (memory self) instr_addr of
        Inl e \<Rightarrow> ([], Inl e)
      | Inr word \<Rightarrow>
          (case decode env word of
             Inl e \<Rightarrow> ([], Inl e)
           | Inr ins \<Rightarrow>
               ([\<lparr>subject = self, pc_addr = instr_addr, instr_word = word, instr = ins\<rparr>],
                execute env self ins)))"

text \<open>
  The loop of \<open>CPU.run\<close>, which may run forever: \<open>None\<close> is the run that does not
  return. It returns the events of all its steps, \<open>step_count\<close>, and the CPU or the
  failure.
\<close>

partial_function (option) run_loop ::
  "('c, 'm) collaborators \<Rightarrow> ('c, 'm) CPU \<Rightarrow> ('c, 'm) CPUStep list \<Rightarrow> nat
     \<Rightarrow> (('c, 'm) CPUStep list \<times> nat \<times> (error + ('c, 'm) CPU)) option" where
  "run_loop env self events step_count =
     (if \<not> halted self then
        (case step env self of
           (evs, Inl e) \<Rightarrow> Some (events @ evs, step_count, Inl e)
         | (evs, Inr self') \<Rightarrow> run_loop env self' (events @ evs) (step_count + 1))
      else Some (events, step_count, Inr self))"

declare run_loop.simps [code]

text \<open>\<open>CPU.run\<close> with \<open>single_step=False\<close>.\<close>

definition run ::
  "('c, 'm) collaborators \<Rightarrow> ('c, 'm) CPU \<Rightarrow> int
     \<Rightarrow> (('c, 'm) CPUStep list \<times> nat \<times> (error + ('c, 'm) CPU)) option" where
  "run env self from_addr =
     run_loop env
       (self\<lparr>halted := False, registers := register_put (registers self) 15 from_addr\<rparr>) [] 0"

subsection \<open>Reading a step's result\<close>

text \<open>
  Helpers for stating examples: a further step after a result, and the value that a
  register gets after it.
\<close>

definition after_step ::
  "('c, 'm) collaborators \<Rightarrow> error + ('c, 'm) CPU \<Rightarrow> error + ('c, 'm) CPU" where
  "after_step env r = and_then r (\<lambda>self. snd (step env self))"

definition register_of :: "nat \<Rightarrow> error + ('c, 'm) CPU \<Rightarrow> error + int" where
  "register_of k r = and_then r (\<lambda>self. Inr (register_get (registers self) k))"

subsection \<open>A concrete machine for the examples\<close>

text \<open>
  One instance of the collaborators, on which the examples run: the condition flags
  are sets of bits (\<open>NEVER\<close> is the empty set, 15 is all of them), the memory is a
  function from addresses to words, the decoder reads its instruction from a table, and
  the ALU adds its operands whatever the opcode.
\<close>

definition demo_table :: "(int \<times> nat Instruction) list" where
  "demo_table =
     [(1, \<lparr>cond = 15, op = STORE, reg_target = 1, reg_src1 = 0, reg_src2 = 0, offset = 100\<rparr>),
      (2, \<lparr>cond = 15, op = LOAD, reg_target = 2, reg_src1 = 0, reg_src2 = 0, offset = 100\<rparr>),
      (3, \<lparr>cond = 15, op = LOAD, reg_target = 0, reg_src1 = 0, reg_src2 = 0, offset = 100\<rparr>),
      (4, \<lparr>cond = 15, op = HALT, reg_target = 1, reg_src1 = 0, reg_src2 = 0, offset = 0\<rparr>),
      (5, \<lparr>cond = 15, op = HALT, reg_target = 15, reg_src1 = 0, reg_src2 = 0, offset = 0\<rparr>),
      (6, \<lparr>cond = 15, op = ALU_OP 0, reg_target = 15, reg_src1 = 15, reg_src2 = 0, offset = 40\<rparr>),
      (7, \<lparr>cond = 0, op = ALU_OP 0, reg_target = 1, reg_src1 = 1, reg_src2 = 1, offset = 0\<rparr>),
      (8, \<lparr>cond = 15, op = ALU_OP 0, reg_target = 1, reg_src1 = 1, reg_src2 = 1, offset = 0\<rparr>)]"

definition demo_flags :: "int \<Rightarrow> nat" where
  "demo_flags result = (if result < 0 then 1 else if result = 0 then 2 else 4)"

definition demo_env :: "(nat, int \<Rightarrow> int) collaborators" where
  "demo_env =
     \<lparr> decode = (\<lambda>word. case map_of demo_table word of
                     None \<Rightarrow> Inl CollaboratorFailure | Some ins \<Rightarrow> Inr ins),
       alu_exec = (\<lambda>opcode left right. Inr (left + right, demo_flags (left + right))),
       memory_get = (\<lambda>m addr. Inr (m addr)),
       memory_put = (\<lambda>m addr v. Inr (m(addr := v))),
       flag_and = (\<lambda>a b. a AND b),
       NEVER = 0 \<rparr>"

text \<open>
  A CPU about to fetch from address 0, where the words \<open>w0\<close> and \<open>w1\<close> stand at
  addresses 0 and 1; register 1 holds 7.
\<close>

definition demo_cpu :: "int \<Rightarrow> int \<Rightarrow> (nat, int \<Rightarrow> int) CPU" where
  "demo_cpu w0 w1 =
     \<lparr> memory = (\<lambda>addr. if addr = 0 then w0 else if addr = 1 then w1 else 0),
       registers = (\<lambda>k. if k = 1 then 7 else 0),
       cc = 15,
       halted = False \<rparr>"

section \<open>The bit-field codec\<close>

lemma and_then_Inr: "and_then (Inr x) f = f x"
  by (simp add: and_then_def)

lemma and_then_Inl: "and_then (Inl e) f = Inl e"
  by (simp add: and_then_def)

lemmas and_then_simps = and_then_Inr and_then_Inl

subsection \<open>Construction\<close>

lemma bin_digits_ones:
  "bin_digits (replicate n CHR ''1'') acc = Inr (acc * 2 ^ n + 2 ^ n - 1)"
  by (induction n arbitrary: acc) (simp_all add: algebra_simps)

lemma construct_mask_ones:
  assumes "1 \<le> width"
  shows "construct_mask width = Inr (2 ^ nat width - 1)"
proof -
  from assms have "replicate (nat width) CHR ''1'' \<noteq> []" by simp
  then show ?thesis
    using assms by (simp add: construct_mask_def int_base2_def bin_digits_ones)
qed

text \<open>
  The constructor accepts exactly the bounds \<open>0 \<le> from_bit < 32\<close> and
  \<open>from_bit \<le> to_bit \<le> 32\<close>, and then builds the masks of the field.
\<close>

lemma BitField_init_ok:
  assumes "0 \<le> f" "f < 32" "f \<le> t" "t \<le> 32"
  shows "BitField_init f t = Inr \<lparr> from_bit = f, to_bit = t, field_width = 1 + t - f,
            mask = push_bit (nat f) (2 ^ nat (1 + t - f) - 1),
            maskout = NOT (push_bit (nat f) (2 ^ nat (1 + t - f) - 1)),
            comp = 2 ^ nat (1 + t - f), sign_bit = 2 ^ nat (t - f) \<rparr>"
proof -
  have w: "1 \<le> 1 + t - f" using assms by simp
  show ?thesis
    using assms
    by (simp add: BitField_init_def WORD_SIZE_def Let_def construct_mask_ones [OF w]
        py_lshift_def and_then_simps)
qed

lemma BitField_init_fails:
  assumes "\<not> (0 \<le> f \<and> f < 32 \<and> f \<le> t \<and> t \<le> 32)"
  shows "BitField_init f t = Inl AssertionError"
  using assms by (auto simp add: BitField_init_def WORD_SIZE_def)

lemma BitField_init_Inr:
  assumes "BitField_init f t = Inr bf"
  shows "0 \<le> f \<and> f < 32 \<and> f \<le> t \<and> t \<le> 32 \<and>
     bf = \<lparr> from_bit = f, to_bit = t, field_width = 1 + t - f,
            mask = push_bit (nat f) (2 ^ nat (1 + t - f) - 1),
            maskout = NOT (push_bit (nat f) (2 ^ nat (1 + t - f) - 1)),
            comp = 2 ^ nat (1 + t - f), sign_bit = 2 ^ nat (t - f) \<rparr>"
proof (cases "0 \<le> f \<and> f < 32 \<and> f \<le> t \<and> t \<le> 32")
  case True
  then show ?thesis using assms BitField_init_ok [of f t] by simp
next
  case False
  then show ?thesis using assms BitField_init_fails [of f t] by simp
qed

lemma BitField_init_5_2: "BitField_init 5 2 = Inl AssertionError"
  by (rule BitField_init_fails) simp

subsection \<open>Bits of a field\<close>

lemma bit_ones: "bit (2 ^ k - 1 :: int) i \<longleftrightarrow> i < k"
  by (simp add: bit_mask_iff flip: mask_eq_exp_minus_1)

lemma bit_field_mask:
  "bit (push_bit n (2 ^ k - 1) :: int) i \<longleftrightarrow> n \<le> i \<and> i < n + k"
  by (auto simp add: bit_push_bit_iff bit_ones)

lemma field_bits_roundtrip:
  "drop_bit n (((w AND NOT (push_bit n (2 ^ k - 1))) OR
      (push_bit n v AND push_bit n (2 ^ k - 1))) AND push_bit n (2 ^ k - 1))
   = take_bit k (v :: int)"
  by (rule bit_eqI) (auto simp add: bit_simps bit_ones)

lemma field_bits_frame:
  assumes "i < n \<or> n + k \<le> i"
  shows "bit ((w AND NOT (push_bit n (2 ^ k - 1))) OR
      (push_bit n v AND push_bit n (2 ^ k - 1))) i = bit (w :: int) i"
  using assms by (auto simp add: bit_and_iff bit_or_iff bit_not_iff bit_field_mask)

lemma field_bits_extract:
  "drop_bit n (x AND push_bit n (2 ^ k - 1)) = take_bit k (drop_bit n (x :: int))"
  by (rule bit_eqI) (auto simp add: bit_simps bit_ones)

lemma insert_constructed:
  assumes "BitField_init f t = Inr bf"
  shows "insert_field bf v w =
     Inr ((w AND NOT (push_bit (nat f) (2 ^ nat (1 + t - f) - 1))) OR
          (push_bit (nat f) v AND push_bit (nat f) (2 ^ nat (1 + t - f) - 1)))"
proof -
  from BitField_init_Inr [OF assms] have f: "0 \<le> f"
    and bf: "from_bit bf = f"
      "mask bf = push_bit (nat f) (2 ^ nat (1 + t - f) - 1)"
      "maskout bf = NOT (push_bit (nat f) (2 ^ nat (1 + t - f) - 1))"
    by simp_all
  show ?thesis
    using f by (simp add: insert_field_def py_lshift_def bf Let_def and_then_simps)
qed

lemma extract_constructed:
  assumes "BitField_init f t = Inr bf"
  shows "extract_field bf x = Inr (take_bit (nat (field_width bf)) (drop_bit (nat f) x))"
proof -
  from BitField_init_Inr [OF assms] have f: "0 \<le> f"
    and bf: "from_bit bf = f" "field_width bf = 1 + t - f"
      "mask bf = push_bit (nat f) (2 ^ nat (1 + t - f) - 1)"
    by simp_all
  have "extract_field bf x = Inr (drop_bit (nat f) (x AND push_bit (nat f) (2 ^ nat (1 + t - f) - 1)))"
    using f by (simp only: extract_field_def py_rshift_def bf Let_def) simp
  then show ?thesis
    by (simp only: field_bits_extract bf)
qed

lemma extract_insert_constructed:
  assumes "BitField_init f t = Inr bf" and "insert_field bf v w = Inr x"
  shows "extract_field bf x = Inr (take_bit (nat (field_width bf)) v)"
proof -
  from BitField_init_Inr [OF assms(1)] have f: "0 \<le> f"
    and bf: "from_bit bf = f" "field_width bf = 1 + t - f"
      "mask bf = push_bit (nat f) (2 ^ nat (1 + t - f) - 1)"
    by simp_all
  from assms(2) have x: "x = (w AND NOT (push_bit (nat f) (2 ^ nat (1 + t - f) - 1))) OR
      (push_bit (nat f) v AND push_bit (nat f) (2 ^ nat (1 + t - f) - 1))"
    by (simp add: insert_constructed [OF assms(1)])
  have "extract_field bf x = Inr (drop_bit (nat f) (x AND push_bit (nat f) (2 ^ nat (1 + t - f) - 1)))"
    using f by (simp only: extract_field_def py_rshift_def bf Let_def) simp
  then show ?thesis
    by (simp only: x field_bits_roundtrip bf)
qed

text \<open>
  Claim C1. For every bit field constructed with bounds \<open>0 \<le> from_bit \<le> to_bit \<le> 31\<close>
  (the constructor accepts them all), every value \<open>v\<close> with \<open>0 \<le> v < 2 ^ field_width\<close>
  and every word \<open>w\<close>, extracting after inserting \<open>v\<close> into \<open>w\<close> gives \<open>v\<close> back. The
  word may be any integer, so any 32-bit word in particular.
\<close>

theorem insert_extract_roundtrip:
  assumes "0 \<le> f" "f \<le> t" "t \<le> 31"
    and "0 \<le> v" "v < 2 ^ nat (1 + t - f)"
  shows "\<exists>bf x. BitField_init f t = Inr bf \<and> field_width bf = 1 + t - f
      \<and> insert_field bf v w = Inr x \<and> extract_field bf x = Inr v"
proof -
  from assms(1-3) obtain bf where bf: "BitField_init f t = Inr bf"
    using BitField_init_ok [of f t] by simp
  have width: "field_width bf = 1 + t - f"
    using BitField_init_Inr [OF bf] by simp
  obtain x where x: "insert_field bf v w = Inr x"
    by (simp add: insert_constructed [OF bf])
  have "take_bit (nat (field_width bf)) v = v"
    using assms(4,5) by (simp add: take_bit_int_eq_self width)
  with extract_insert_constructed [OF bf x] have "extract_field bf x = Inr v"
    by simp
  with bf width x show ?thesis
    by blast
qed

theorem insert_extract_roundtrip_witness:
  "(0::int) \<le> 4 \<and> (4::int) \<le> 7 \<and> (7::int) \<le> 31 \<and> (0::int) \<le> 15 \<and> (15::int) < 2 ^ nat (1 + 7 - 4)
   \<and> (\<exists>bf x. BitField_init 4 7 = Inr bf \<and> field_width bf = 1 + 7 - 4
        \<and> insert_field bf 15 2852170240 = Inr x \<and> extract_field bf x = Inr 15)"
proof -
  have h: "(0::int) \<le> 4" "(4::int) \<le> 7" "(7::int) \<le> 31" "(0::int) \<le> 15"
    "(15::int) < 2 ^ nat (1 + 7 - 4)"
    by simp_all
  from insert_extract_roundtrip [OF h, of 2852170240] h show ?thesis
    by blast
qed

text \<open>
  Claim C8. For every bit field with valid bounds, every field value \<open>v\<close> (of any size
  or sign) and every word \<open>w\<close>, each bit of \<open>insert(v, w)\<close> at a position below
  \<open>from_bit\<close> or above \<open>to_bit\<close> is the bit of \<open>w\<close> at that position.
\<close>

theorem insert_outside_field_unchanged:
  assumes "0 \<le> f" "f \<le> t" "t \<le> 31"
    and "int i < f \<or> t < int i"
  shows "\<exists>bf x. BitField_init f t = Inr bf \<and> insert_field bf v w = Inr x
      \<and> bit x i = bit w i"
proof -
  from assms(1-3) obtain bf where bf: "BitField_init f t = Inr bf"
    using BitField_init_ok [of f t] by simp
  from assms have "i < nat f \<or> nat f + nat (1 + t - f) \<le> i"
    by auto
  then have "bit ((w AND NOT (push_bit (nat f) (2 ^ nat (1 + t - f) - 1))) OR
      (push_bit (nat f) v AND push_bit (nat f) (2 ^ nat (1 + t - f) - 1))) i = bit w i"
    by (rule field_bits_frame)
  with bf insert_constructed [OF bf, of v w] show ?thesis
    by blast
qed

theorem insert_outside_field_unchanged_witness:
  "(0::int) \<le> 4 \<and> (4::int) \<le> 7 \<and> (7::int) \<le> 31 \<and> (int 9 < 4 \<or> 7 < int 9)
   \<and> (\<exists>bf x. BitField_init 4 7 = Inr bf \<and> insert_field bf 4095 2852170240 = Inr x
        \<and> bit x 9 = bit (2852170240 :: int) 9)"
proof -
  have h: "(0::int) \<le> 4" "(4::int) \<le> 7" "(7::int) \<le> 31" "int 9 < 4 \<or> 7 < int 9"
    by simp_all
  from insert_outside_field_unchanged [OF h, of 4095 2852170240] h show ?thesis
    by blast
qed

text \<open>
  Claim C2. The constructor is claimed to fail for every \<open>to_bit > 31\<close>. Its second
  assertion is \<open>to_bit <= WORD_SIZE\<close>, so \<open>to_bit = 32\<close> passes, and the constructor
  builds a field of 33 bits that reaches bit 32, one above the high-order bit 31 of the
  word that both docstrings describe.
\<close>

theorem BitField_init_accepts_to_bit_32:
  "BitField_init 0 32 = Inr \<lparr> from_bit = 0, to_bit = 32, field_width = 33,
       mask = 8589934591, maskout = - 8589934592, comp = 8589934592,
       sign_bit = 4294967296 \<rparr>"
  by (simp add: BitField_init_ok)

subsection \<open>Sign extension\<close>

text \<open>What \<open>sign_extend\<close> returns on every input that passes its two assertions.\<close>

lemma sign_extend_accepted:
  assumes "1 < width" "0 \<le> field" "field < 2 ^ nat (width + 1)"
  shows "sign_extend field width =
     Inr (if bit field (nat (width - 1))
          then take_bit (nat (width - 1)) field - 2 ^ nat (width - 1) else field)"
proof -
  have "field AND 2 ^ nat (width - 1) \<noteq> 0 \<longleftrightarrow> bit field (nat (width - 1))"
    by (simp add: and_exp_eq_0_iff_not_bit)
  moreover have "field AND (2 ^ nat (width - 1) - 1) = take_bit (nat (width - 1)) field"
    by (simp add: take_bit_eq_mask mask_eq_exp_minus_1)
  ultimately show ?thesis
    using assms by (simp add: sign_extend_def py_lshift_def Let_def and_then_simps)
qed

lemma sign_extend_narrow:
  assumes "width \<le> 1"
  shows "sign_extend field width = Inl AssertionError"
  using assms by (simp add: sign_extend_def)

lemma top_bit_split:
  assumes "0 \<le> (u :: int)" "u < 2 ^ Suc n"
  shows "u = take_bit n u + 2 ^ n * of_bool (bit u n)"
proof -
  have "take_bit (Suc n) u = u" using assms by (simp add: take_bit_int_eq_self)
  then show ?thesis by (simp add: take_bit_Suc_from_most)
qed

lemma top_bit_shift:
  assumes "0 \<le> (u :: int)" "u < 2 ^ Suc n"
  shows "drop_bit n u = of_bool (bit u n)"
proof (rule bit_eqI)
  fix i
  have "\<not> bit u (n + Suc j)" for j
  proof -
    have "take_bit (Suc n) u = u" using assms by (simp add: take_bit_int_eq_self)
    then have "bit u (n + Suc j) = bit (take_bit (Suc n) u) (n + Suc j)" by simp
    then show ?thesis by (simp add: bit_take_bit_iff)
  qed
  then show "bit (drop_bit n u) i = bit (of_bool (bit u n) :: int) i"
    by (cases i) (simp_all add: bit_drop_bit_eq bit_of_bool_iff)
qed

lemma sign_extend_fits:
  assumes "1 < width" "0 \<le> field" "field < 2 ^ nat width"
  shows "sign_extend field width =
     Inr (if bit field (nat (width - 1)) then field - 2 ^ nat width else field)"
proof -
  have suc: "nat width = Suc (nat (width - 1))" using assms(1) by simp
  have "(2::int) ^ nat width \<le> 2 ^ nat (width + 1)"
    by (rule power_increasing) simp_all
  with assms(3) have acc: "field < 2 ^ nat (width + 1)" by linarith
  have "field = take_bit (nat (width - 1)) field
      + 2 ^ nat (width - 1) * of_bool (bit field (nat (width - 1)))"
    using assms(2,3) unfolding suc by (rule top_bit_split)
  then have "bit field (nat (width - 1)) \<Longrightarrow>
      take_bit (nat (width - 1)) field - 2 ^ nat (width - 1) = field - 2 ^ nat width"
    unfolding suc by simp
  then show ?thesis
    by (simp add: sign_extend_accepted [OF assms(1,2) acc])
qed

lemma extract_signed_constructed:
  assumes "BitField_init f t = Inr bf"
    and u_def: "u = take_bit (nat (field_width bf)) (drop_bit (nat f) word)"
  shows "extract_signed bf word =
     Inr (if bit u (nat (field_width bf - 1)) then u - 2 ^ nat (field_width bf) else u)"
proof -
  from BitField_init_Inr [OF assms(1)] have ft: "f \<le> t"
    and bf: "field_width bf = 1 + t - f" "comp bf = 2 ^ nat (1 + t - f)"
    by simp_all
  have suc: "nat (1 + t - f) = Suc (nat (t - f))" using ft by simp
  have "u < 2 ^ nat (field_width bf)"
    by (simp add: u_def)
  then have u: "u < 2 ^ Suc (nat (t - f))"
    by (simp only: bf suc)
  have u0: "0 \<le> u"
    by (simp add: u_def)
  have top: "drop_bit (nat (t - f)) u = of_bool (bit u (nat (t - f)))"
    using u0 u by (rule top_bit_shift)
  have ext: "extract_field bf word = Inr u"
    by (simp only: extract_constructed [OF assms(1)] u_def)
  have "extract_signed bf word =
      Inr (if bit u (nat (t - f)) then u - 2 ^ nat (1 + t - f) else u)"
    using ft by (simp add: extract_signed_def ext py_rshift_def bf top and_then_simps)
  then show ?thesis
    by (simp add: bf)
qed

lemma sign_extend_extract:
  assumes "BitField_init f t = Inr bf" and "1 < field_width bf"
  shows "and_then (extract_field bf word) (\<lambda>u. sign_extend u (field_width bf))
     = extract_signed bf word"
proof -
  define u where "u = take_bit (nat (field_width bf)) (drop_bit (nat f) word)"
  have "0 \<le> u" "u < 2 ^ nat (field_width bf)"
    by (simp_all add: u_def)
  moreover have "extract_field bf word = Inr u"
    by (simp only: extract_constructed [OF assms(1)] u_def)
  moreover have "extract_signed bf word =
      Inr (if bit u (nat (field_width bf - 1)) then u - 2 ^ nat (field_width bf) else u)"
    by (rule extract_signed_constructed [OF assms(1) u_def])
  ultimately show ?thesis
    by (simp add: sign_extend_fits [OF assms(2)] and_then_simps)
qed

text \<open>
  Claim C9. For every \<open>width > 1\<close> and every \<open>field\<close> with \<open>0 \<le> field < 2 ^ width\<close>,
  \<open>sign_extend(field, width)\<close> returns \<open>field - 2 ^ width\<close> when bit \<open>width - 1\<close> of
  \<open>field\<close> is set and \<open>field\<close> otherwise; \<open>0b111\<close> at width 3 gives \<open>-1\<close> and \<open>0b0111\<close> at
  width 4 gives 7; on what \<open>extract\<close> returns for a constructed bit field of more than
  one bit it returns what \<open>extract_signed\<close> returns for the same word; and it fails
  with an assertion error for every \<open>width \<le> 1\<close>.
\<close>

theorem sign_extend_contract:
  "(1 < width \<and> 0 \<le> field \<and> field < 2 ^ nat width \<longrightarrow>
      sign_extend field width =
        Inr (if bit field (nat (width - 1)) then field - 2 ^ nat width else field))
   \<and> sign_extend 7 3 = Inr (- 1)
   \<and> sign_extend 7 4 = Inr 7
   \<and> (BitField_init f t = Inr bf \<and> 1 < field_width bf \<longrightarrow>
        and_then (extract_field bf word) (\<lambda>u. sign_extend u (field_width bf))
          = extract_signed bf word)
   \<and> (narrow \<le> 1 \<longrightarrow> sign_extend any narrow = Inl AssertionError)"
proof (intro conjI impI)
  show "sign_extend 7 3 = Inr (- 1)"
    by (simp add: sign_extend_fits)
  show "sign_extend 7 4 = Inr 7"
    by (simp add: sign_extend_fits)
  show "sign_extend field width =
      Inr (if bit field (nat (width - 1)) then field - 2 ^ nat width else field)"
    if "1 < width \<and> 0 \<le> field \<and> field < 2 ^ nat width"
    using that by (simp add: sign_extend_fits)
  show "and_then (extract_field bf word) (\<lambda>u. sign_extend u (field_width bf))
      = extract_signed bf word"
    if "BitField_init f t = Inr bf \<and> 1 < field_width bf"
    using that by (auto intro: sign_extend_extract)
  show "sign_extend any narrow = Inl AssertionError" if "narrow \<le> 1"
    using that by (rule sign_extend_narrow)
qed

theorem sign_extend_contract_witness:
  "(1::int) < 3 \<and> (0::int) \<le> 5 \<and> (5::int) < 2 ^ nat 3
   \<and> sign_extend 5 3 = Inr (- 3)
   \<and> BitField_init 4 6 = Inr \<lparr> from_bit = 4, to_bit = 6, field_width = 3, mask = 112,
        maskout = - 113, comp = 8, sign_bit = 4 \<rparr>
   \<and> (1::int) < field_width \<lparr> from_bit = 4, to_bit = 6, field_width = 3, mask = 112,
        maskout = - 113, comp = 8, sign_bit = 4 \<rparr>
   \<and> extract_field \<lparr> from_bit = 4, to_bit = 6, field_width = 3, mask = 112,
        maskout = - 113, comp = 8, sign_bit = 4 \<rparr> 95 = Inr 5
   \<and> extract_signed \<lparr> from_bit = 4, to_bit = 6, field_width = 3, mask = 112,
        maskout = - 113, comp = 8, sign_bit = 4 \<rparr> 95 = Inr (- 3)
   \<and> (1::int) \<le> 1
   \<and> sign_extend 1 1 = Inl AssertionError"
proof -
  let ?bf = "\<lparr> from_bit = 4, to_bit = 6, field_width = 3, mask = 112,
        maskout = - 113, comp = 8, sign_bit = 4 \<rparr>"
  have bf: "BitField_init 4 6 = Inr ?bf"
    by (simp add: BitField_init_ok)
  have ext: "extract_field ?bf 95 = Inr 5"
    by (simp add: extract_field_def py_rshift_def)
  note c = sign_extend_contract [of 3 5 4 6 ?bf 95 1 1]
  from c have fits: "sign_extend 5 3 = Inr (- 3)"
    by simp
  from c bf have "and_then (extract_field ?bf 95) (\<lambda>u. sign_extend u (field_width ?bf))
      = extract_signed ?bf 95"
    by simp
  with ext fits have agree: "extract_signed ?bf 95 = Inr (- 3)"
    by (simp add: and_then_simps)
  from c have narrow: "sign_extend 1 1 = Inl AssertionError"
    by simp
  from fits bf ext agree narrow show ?thesis
    by simp
qed

text \<open>
  Claim C10. For every \<open>width > 1\<close>, \<open>sign_extend\<close> passes its assertions on every
  \<open>field\<close> with \<open>0 \<le> field < 2 ^ (width + 1)\<close>, one bit more than \<open>width\<close>; when bit
  \<open>width - 1\<close> of such a field is clear it returns the field as it is, also when
  \<open>field \<ge> 2 ^ width\<close>.
\<close>

theorem sign_extend_accepts_one_more_bit:
  assumes "1 < width" "0 \<le> field" "field < 2 ^ nat (width + 1)"
  shows "(\<exists>r. sign_extend field width = Inr r)
      \<and> (\<not> bit field (nat (width - 1)) \<longrightarrow> sign_extend field width = Inr field)"
  by (simp add: sign_extend_accepted [OF assms])

theorem sign_extend_accepts_one_more_bit_witness:
  "(1::int) < 2 \<and> (0::int) \<le> 4 \<and> (4::int) < 2 ^ nat (2 + 1) \<and> (4::int) \<ge> 2 ^ nat 2
   \<and> \<not> bit (4::int) (nat (2 - 1)) \<and> sign_extend 4 2 = Inr 4"
proof -
  have h: "(1::int) < 2" "(0::int) \<le> 4" "(4::int) < 2 ^ nat (2 + 1)"
    by simp_all
  have clear: "\<not> bit (4::int) (nat (2 - 1))"
    by simp
  from sign_extend_accepts_one_more_bit [OF h] clear h show ?thesis
    by simp
qed

section \<open>The execution cycle\<close>

subsection \<open>Registers\<close>

lemma register_get_zero: "register_get regs 0 = 0"
  by (simp add: register_get_def)

lemma register_put_get:
  "register_get (register_put regs k v) j =
     (if j = 0 then 0 else if j = k then v else register_get regs j)"
  by (simp add: register_get_def register_put_def)

subsection \<open>One step, path by path\<close>

lemma step_fetched:
  assumes "memory_get env (memory s) (register_get (registers s) 15) = Inr w"
    and "decode env w = Inr i"
  shows "step env s =
     ([\<lparr>subject = s, pc_addr = register_get (registers s) 15, instr_word = w, instr = i\<rparr>],
      execute env s i)"
  using assms by (simp add: step_def)

lemma step_fetch_fails:
  assumes "memory_get env (memory s) (register_get (registers s) 15) = Inl e"
  shows "step env s = ([], Inl e)"
  using assms by (simp add: step_def)

lemma step_decode_fails:
  assumes "memory_get env (memory s) (register_get (registers s) 15) = Inr w"
    and "decode env w = Inl e"
  shows "step env s = ([], Inl e)"
  using assms by (simp add: step_def)

lemma execute_suppressed:
  assumes "flag_and env (cc s) (cond i) = NEVER env"
  shows "execute env s i =
     Inr (s\<lparr>registers := register_put (registers s) 15 (register_get (registers s) 15 + 1)\<rparr>)"
  using assms by (simp add: execute_def)

lemma execute_passed:
  assumes "flag_and env (cc s) (cond i) \<noteq> NEVER env"
    and "tuple_index (reg_target i) = Inr t"
    and "tuple_index (reg_src1 i) = Inr a"
    and "tuple_index (reg_src2 i) = Inr b"
    and "alu_exec env (op i) (register_get (registers s) a)
           (register_get (registers s) b + offset i) = Inr (result, cc')"
    and "s1 = s\<lparr>registers := register_put (registers s) 15 (register_get (registers s) 15 + 1),
               cc := cc'\<rparr>"
  shows "execute env s i =
     (if op i = LOAD then
        and_then (memory_get env (memory s) result) (\<lambda>memval.
          Inr (s1\<lparr>registers := register_put (registers s1) t memval\<rparr>))
      else if op i = STORE then
        and_then (memory_put env (memory s) result (register_get (registers s1) t))
          (\<lambda>m. Inr (s1\<lparr>memory := m\<rparr>))
      else if op i = HALT then Inr (s1\<lparr>halted := True\<rparr>)
      else Inr (s1\<lparr>registers := register_put (registers s1) t result\<rparr>))"
  using assms by (simp add: execute_def Let_def and_then_simps)

subsection \<open>The concrete machine\<close>

lemma demo_fetch:
  "memory_get demo_env (memory (demo_cpu w0 w1))
     (register_get (registers (demo_cpu w0 w1)) 15) = Inr w0"
  by (simp add: demo_env_def demo_cpu_def register_get_def)

lemma demo_decode:
  "decode demo_env 1 =
     Inr \<lparr>cond = 15, op = STORE, reg_target = 1, reg_src1 = 0, reg_src2 = 0, offset = 100\<rparr>"
  "decode demo_env 2 =
     Inr \<lparr>cond = 15, op = LOAD, reg_target = 2, reg_src1 = 0, reg_src2 = 0, offset = 100\<rparr>"
  "decode demo_env 3 =
     Inr \<lparr>cond = 15, op = LOAD, reg_target = 0, reg_src1 = 0, reg_src2 = 0, offset = 100\<rparr>"
  "decode demo_env 4 =
     Inr \<lparr>cond = 15, op = HALT, reg_target = 1, reg_src1 = 0, reg_src2 = 0, offset = 0\<rparr>"
  "decode demo_env 5 =
     Inr \<lparr>cond = 15, op = HALT, reg_target = 15, reg_src1 = 0, reg_src2 = 0, offset = 0\<rparr>"
  "decode demo_env 6 =
     Inr \<lparr>cond = 15, op = ALU_OP 0, reg_target = 15, reg_src1 = 15, reg_src2 = 0, offset = 40\<rparr>"
  "decode demo_env 7 =
     Inr \<lparr>cond = 0, op = ALU_OP 0, reg_target = 1, reg_src1 = 1, reg_src2 = 1, offset = 0\<rparr>"
  "decode demo_env 8 =
     Inr \<lparr>cond = 15, op = ALU_OP 0, reg_target = 1, reg_src1 = 1, reg_src2 = 1, offset = 0\<rparr>"
  by (simp_all add: demo_env_def demo_table_def)

lemma demo_collaborators:
  "alu_exec demo_env opcode left right = Inr (left + right, demo_flags (left + right))"
  "memory_get demo_env m addr = Inr (m addr)"
  "memory_put demo_env m addr v = Inr (m(addr := v))"
  "flag_and demo_env x y = x AND y"
  "NEVER demo_env = 0"
  by (simp_all add: demo_env_def)

lemma demo_cpu_fields:
  "memory (demo_cpu w0 w1) = (\<lambda>addr. if addr = 0 then w0 else if addr = 1 then w1 else 0)"
  "registers (demo_cpu w0 w1) = (\<lambda>k. if k = 1 then 7 else 0)"
  "cc (demo_cpu w0 w1) = 15"
  "halted (demo_cpu w0 w1) = False"
  by (simp_all add: demo_cpu_def)

lemmas demo_simps =
  demo_fetch demo_decode demo_collaborators demo_cpu_fields demo_flags_def
  tuple_index_def register_get_def register_put_def

subsection \<open>The claims about a step\<close>

text \<open>
  Claim C7. Every step that fetches a word and decodes it passes exactly one event to
  the listeners, with the address in the program counter, the fetched word and the
  decoded instruction. Its subject is the CPU as it was before the step: at the time of
  the notification nothing had been executed. This holds whatever the predicate check
  decides afterwards, and whether or not the execution then completes.
\<close>

theorem notification_before_execution:
  assumes "memory_get env (memory s) (register_get (registers s) 15) = Inr w"
    and "decode env w = Inr i"
  shows "fst (step env s) =
     [\<lparr>subject = s, pc_addr = register_get (registers s) 15, instr_word = w, instr = i\<rparr>]"
  using assms by (simp add: step_fetched)

theorem notification_before_execution_witness:
  "memory_get demo_env (memory (demo_cpu 7 0)) (register_get (registers (demo_cpu 7 0)) 15)
     = Inr 7
   \<and> decode demo_env 7 =
       Inr \<lparr>cond = 0, op = ALU_OP 0, reg_target = 1, reg_src1 = 1, reg_src2 = 1, offset = 0\<rparr>
   \<and> flag_and demo_env (cc (demo_cpu 7 0)) 0 = NEVER demo_env
   \<and> fst (step demo_env (demo_cpu 7 0)) =
       [\<lparr>subject = demo_cpu 7 0, pc_addr = 0, instr_word = 7,
         instr = \<lparr>cond = 0, op = ALU_OP 0, reg_target = 1, reg_src1 = 1, reg_src2 = 1,
                   offset = 0\<rparr>\<rparr>]"
proof -
  have pc: "register_get (registers (demo_cpu 7 0)) 15 = 0"
    by (simp add: demo_simps)
  have never: "flag_and demo_env (cc (demo_cpu 7 0)) 0 = NEVER demo_env"
    by (simp add: demo_simps)
  have fetch: "memory_get demo_env (memory (demo_cpu 7 0))
      (register_get (registers (demo_cpu 7 0)) 15) = Inr 7"
    by (rule demo_fetch)
  from notification_before_execution [OF fetch demo_decode(7)]
  have "fst (step demo_env (demo_cpu 7 0)) =
      [\<lparr>subject = demo_cpu 7 0, pc_addr = 0, instr_word = 7,
        instr = \<lparr>cond = 0, op = ALU_OP 0, reg_target = 1, reg_src1 = 1, reg_src2 = 1,
                  offset = 0\<rparr>\<rparr>]"
    by (simp only: pc)
  with fetch demo_decode(7) never show ?thesis
    by (intro conjI)
qed

text \<open>
  Claim C4. When the condition flags \<open>&\<close> the instruction's condition are \<open>NEVER\<close>, the
  step advances the program counter by exactly 1 and changes nothing else: every other
  register, the condition flags, the halted flag and the memory stay as they were. The
  step is the same whatever the ALU and the memory's \<open>put\<close> are: neither is called.
\<close>

theorem suppressed_step_frame:
  assumes "memory_get env (memory s) (register_get (registers s) 15) = Inr w"
    and "decode env w = Inr i"
    and "flag_and env (cc s) (cond i) = NEVER env"
  shows "\<exists>s'. snd (step env s) = Inr s'
      \<and> register_get (registers s') 15 = register_get (registers s) 15 + 1
      \<and> (\<forall>k. k \<noteq> 15 \<longrightarrow> register_get (registers s') k = register_get (registers s) k)
      \<and> cc s' = cc s \<and> halted s' = halted s \<and> memory s' = memory s
      \<and> (\<forall>alu put. step (env\<lparr>alu_exec := alu, memory_put := put\<rparr>) s = step env s)"
proof -
  let ?s' = "s\<lparr>registers := register_put (registers s) 15 (register_get (registers s) 15 + 1)\<rparr>"
  have "snd (step env s) = Inr ?s'"
    by (simp add: step_fetched [OF assms(1,2)] execute_suppressed [OF assms(3)])
  moreover have "step (env\<lparr>alu_exec := alu, memory_put := put\<rparr>) s = step env s" for alu put
    using assms by (simp add: step_def execute_def)
  ultimately show ?thesis
    by (simp add: register_put_get register_get_zero)
qed

theorem suppressed_step_frame_witness:
  "memory_get demo_env (memory (demo_cpu 7 0)) (register_get (registers (demo_cpu 7 0)) 15)
     = Inr 7
   \<and> decode demo_env 7 =
       Inr \<lparr>cond = 0, op = ALU_OP 0, reg_target = 1, reg_src1 = 1, reg_src2 = 1, offset = 0\<rparr>
   \<and> flag_and demo_env (cc (demo_cpu 7 0)) 0 = NEVER demo_env
   \<and> register_of 15 (Inr (demo_cpu 7 0)) = Inr 0
   \<and> register_of 15 (after_step demo_env (Inr (demo_cpu 7 0))) = Inr 1
   \<and> (1::nat) \<noteq> 15
   \<and> register_of 1 (Inr (demo_cpu 7 0)) = Inr 7
   \<and> register_of 1 (after_step demo_env (Inr (demo_cpu 7 0))) = Inr 7"
proof -
  have never: "flag_and demo_env (cc (demo_cpu 7 0)) (cond \<lparr>cond = 0, op = ALU_OP 0,
      reg_target = 1, reg_src1 = 1, reg_src2 = 1, offset = 0\<rparr>) = NEVER demo_env"
    by (simp add: demo_simps)
  from suppressed_step_frame [OF demo_fetch demo_decode(7) never]
  obtain s' where s': "snd (step demo_env (demo_cpu 7 0)) = Inr s'"
    and pc: "register_get (registers s') 15 = register_get (registers (demo_cpu 7 0)) 15 + 1"
    and other: "\<And>k. k \<noteq> 15 \<Longrightarrow>
      register_get (registers s') k = register_get (registers (demo_cpu 7 0)) k"
    by blast
  have "register_of 15 (after_step demo_env (Inr (demo_cpu 7 0))) = Inr 1"
    using pc by (simp add: register_of_def after_step_def and_then_simps s' demo_simps)
  moreover have "register_of 1 (after_step demo_env (Inr (demo_cpu 7 0))) = Inr 7"
    using other [of 1] by (simp add: register_of_def after_step_def and_then_simps s' demo_simps)
  ultimately show ?thesis
    using never by (simp add: register_of_def and_then_simps demo_simps)
qed



text \<open>
  Claim C5, amended. A \<open>HALT\<close> instruction whose predicate passes sets the halted flag
  and commits no result: the only register that the step changes is the program
  counter, advanced by 1 as in every step, so the target register is unchanged unless it
  is register 15. The loop of \<open>run\<close> returns after this step, having made one more
  step. As stated, with the target register unchanged for every target, the claim fails
  for target register 15.
\<close>

theorem halt_step:
  assumes "memory_get env (memory s) (register_get (registers s) 15) = Inr w"
    and "decode env w = Inr i"
    and "flag_and env (cc s) (cond i) \<noteq> NEVER env"
    and "op i = HALT"
    and "tuple_index (reg_target i) = Inr t"
    and "tuple_index (reg_src1 i) = Inr a"
    and "tuple_index (reg_src2 i) = Inr b"
    and "alu_exec env (op i) (register_get (registers s) a)
           (register_get (registers s) b + offset i) = Inr (result, cc')"
    and "\<not> halted s"
  shows "\<exists>ev s'. step env s = ([ev], Inr s') \<and> halted s'
      \<and> registers s' = register_put (registers s) 15 (register_get (registers s) 15 + 1)
      \<and> (t \<noteq> 15 \<longrightarrow> register_get (registers s') t = register_get (registers s) t)
      \<and> (\<forall>evs n. run_loop env s evs n = Some (evs @ [ev], n + 1, Inr s'))"
proof -
  let ?ev = "\<lparr>subject = s, pc_addr = register_get (registers s) 15, instr_word = w, instr = i\<rparr>"
  let ?s' = "s\<lparr>registers := register_put (registers s) 15 (register_get (registers s) 15 + 1),
               cc := cc', halted := True\<rparr>"
  have st: "step env s = ([?ev], Inr ?s')"
    by (simp add: step_fetched [OF assms(1,2)]
        execute_passed [OF assms(3,5,6,7,8) refl] assms(4))
  have "run_loop env s evs n = Some (evs @ [?ev], n + 1, Inr ?s')" for evs n
    using assms(9) by (simp add: run_loop.simps [of env s] st run_loop.simps [of env ?s'])
  with st show ?thesis
    by (simp add: register_put_get register_get_zero)
qed

theorem halt_step_witness:
  "memory_get demo_env (memory (demo_cpu 4 0)) (register_get (registers (demo_cpu 4 0)) 15)
     = Inr 4
   \<and> decode demo_env 4 =
       Inr \<lparr>cond = 15, op = HALT, reg_target = 1, reg_src1 = 0, reg_src2 = 0, offset = 0\<rparr>
   \<and> flag_and demo_env (cc (demo_cpu 4 0)) 15 \<noteq> NEVER demo_env
   \<and> tuple_index 1 = Inr 1 \<and> tuple_index 0 = Inr 0
   \<and> alu_exec demo_env HALT 0 (0 + 0) = Inr (0, 2)
   \<and> \<not> halted (demo_cpu 4 0)
   \<and> (1::nat) \<noteq> 15
   \<and> register_of 1 (Inr (demo_cpu 4 0)) = Inr 7
   \<and> register_of 1 (after_step demo_env (Inr (demo_cpu 4 0))) = Inr 7
   \<and> (\<exists>ev s'. run_loop demo_env (demo_cpu 4 0) [] 0 = Some ([ev], 1, Inr s') \<and> halted s')"
proof -
  let ?i = "\<lparr>cond = 15, op = HALT, reg_target = 1, reg_src1 = 0, reg_src2 = 0,
      offset = 0 :: int\<rparr> :: nat Instruction"
  have pass: "flag_and demo_env (cc (demo_cpu 4 0)) (cond ?i) \<noteq> NEVER demo_env"
    by (simp add: demo_simps)
  have opc: "op ?i = HALT"
    by simp
  have idx: "tuple_index (reg_target ?i) = Inr 1" "tuple_index (reg_src1 ?i) = Inr 0"
    "tuple_index (reg_src2 ?i) = Inr 0"
    by (simp_all add: tuple_index_def)
  have alu: "alu_exec demo_env (op ?i) (register_get (registers (demo_cpu 4 0)) 0)
      (register_get (registers (demo_cpu 4 0)) 0 + offset ?i) = Inr (0, 2)"
    by (simp add: demo_simps)
  have running: "\<not> halted (demo_cpu 4 0)"
    by (simp add: demo_simps)
  from halt_step [OF demo_fetch demo_decode(4) pass opc idx alu running]
  obtain ev s' where st: "step demo_env (demo_cpu 4 0) = ([ev], Inr s')"
    and halted: "halted s'"
    and target: "register_get (registers s') 1 = register_get (registers (demo_cpu 4 0)) 1"
    and loop: "\<And>evs n. run_loop demo_env (demo_cpu 4 0) evs n = Some (evs @ [ev], n + 1, Inr s')"
    by auto
  have "register_of 1 (after_step demo_env (Inr (demo_cpu 4 0))) = Inr 7"
    using target by (simp add: register_of_def after_step_def and_then_simps st demo_simps)
  moreover have "\<exists>ev s'. run_loop demo_env (demo_cpu 4 0) [] 0 = Some ([ev], 1, Inr s') \<and> halted s'"
    using loop [of "[]" 0] halted by simp
  ultimately show ?thesis
    using pass running by (simp add: register_of_def and_then_simps demo_simps)
qed

theorem halt_target_pc_counterexample:
  "memory_get demo_env (memory (demo_cpu 5 0)) (register_get (registers (demo_cpu 5 0)) 15)
     = Inr 5
   \<and> decode demo_env 5 =
       Inr \<lparr>cond = 15, op = HALT, reg_target = 15, reg_src1 = 0, reg_src2 = 0, offset = 0\<rparr>
   \<and> flag_and demo_env (cc (demo_cpu 5 0)) 15 \<noteq> NEVER demo_env
   \<and> register_of 15 (Inr (demo_cpu 5 0)) = Inr 0
   \<and> register_of 15 (after_step demo_env (Inr (demo_cpu 5 0))) = Inr 1"
  by (simp add: register_of_def after_step_def and_then_simps step_fetched [OF demo_fetch]
      execute_def demo_simps)

text \<open>
  Claim C6, amended. Every \<open>STORE\<close> instruction whose predicate passes calls the memory's
  \<open>put\<close> with the address that the ALU returns and the value \<open>v\<close> that its target
  register holds when the result is committed (after the program counter was advanced),
  not the ALU result; the step ends as that call ends, with the memory that it returns.
  When the memory then gives \<open>v\<close> back at that address, a following \<open>LOAD\<close> from that
  address leaves \<open>v\<close> in its target register, for every target register other than
  register 0. As stated, for every target register of the \<open>LOAD\<close>, the claim fails for
  register 0, which reads as zero whatever is put.
\<close>

theorem store_then_load:
  assumes "memory_get env (memory s) (register_get (registers s) 15) = Inr w1"
    and "decode env w1 = Inr i1"
    and "flag_and env (cc s) (cond i1) \<noteq> NEVER env"
    and "op i1 = STORE"
    and "tuple_index (reg_target i1) = Inr t1"
    and "tuple_index (reg_src1 i1) = Inr a1"
    and "tuple_index (reg_src2 i1) = Inr b1"
    and "alu_exec env (op i1) (register_get (registers s) a1)
           (register_get (registers s) b1 + offset i1) = Inr (addr, cc1)"
  shows "snd (step env s) =
       and_then
         (memory_put env (memory s) addr
           (register_get
             (register_put (registers s) 15 (register_get (registers s) 15 + 1)) t1))
         (\<lambda>m. Inr (s\<lparr>registers :=
                       register_put (registers s) 15 (register_get (registers s) 15 + 1),
                     cc := cc1, memory := m\<rparr>))
    \<and> (v = register_get
             (register_put (registers s) 15 (register_get (registers s) 15 + 1)) t1
       \<and> memory_put env (memory s) addr v = Inr m1
       \<and> memory_get env m1 addr = Inr v
       \<and> s1 = s\<lparr>registers :=
                   register_put (registers s) 15 (register_get (registers s) 15 + 1),
                 cc := cc1, memory := m1\<rparr>
       \<and> memory_get env m1 (register_get (registers s1) 15) = Inr w2
       \<and> decode env w2 = Inr i2
       \<and> flag_and env cc1 (cond i2) \<noteq> NEVER env
       \<and> op i2 = LOAD
       \<and> tuple_index (reg_target i2) = Inr t2
       \<and> tuple_index (reg_src1 i2) = Inr a2
       \<and> tuple_index (reg_src2 i2) = Inr b2
       \<and> alu_exec env (op i2) (register_get (registers s1) a2)
            (register_get (registers s1) b2 + offset i2) = Inr (addr, cc2)
       \<and> t2 \<noteq> 0
       \<longrightarrow> snd (step env s) = Inr s1
         \<and> (\<exists>s2. snd (step env s1) = Inr s2 \<and> register_get (registers s2) t2 = v))"
proof (intro conjI impI)
  show store: "snd (step env s) =
       and_then
         (memory_put env (memory s) addr
           (register_get
             (register_put (registers s) 15 (register_get (registers s) 15 + 1)) t1))
         (\<lambda>m. Inr (s\<lparr>registers :=
                       register_put (registers s) 15 (register_get (registers s) 15 + 1),
                     cc := cc1, memory := m\<rparr>))"
    by (simp add: step_fetched [OF assms(1,2)]
        execute_passed [OF assms(3,5,6,7,8) refl] assms(4))
  assume load: "v = register_get
             (register_put (registers s) 15 (register_get (registers s) 15 + 1)) t1
       \<and> memory_put env (memory s) addr v = Inr m1
       \<and> memory_get env m1 addr = Inr v
       \<and> s1 = s\<lparr>registers :=
                   register_put (registers s) 15 (register_get (registers s) 15 + 1),
                 cc := cc1, memory := m1\<rparr>
       \<and> memory_get env m1 (register_get (registers s1) 15) = Inr w2
       \<and> decode env w2 = Inr i2
       \<and> flag_and env cc1 (cond i2) \<noteq> NEVER env
       \<and> op i2 = LOAD
       \<and> tuple_index (reg_target i2) = Inr t2
       \<and> tuple_index (reg_src1 i2) = Inr a2
       \<and> tuple_index (reg_src2 i2) = Inr b2
       \<and> alu_exec env (op i2) (register_get (registers s1) a2)
            (register_get (registers s1) b2 + offset i2) = Inr (addr, cc2)
       \<and> t2 \<noteq> 0"
  then have v: "v = register_get
        (register_put (registers s) 15 (register_get (registers s) 15 + 1)) t1"
    and put: "memory_put env (memory s) addr v = Inr m1"
    and reread: "memory_get env m1 addr = Inr v"
    and s1_def: "s1 = s\<lparr>registers :=
        register_put (registers s) 15 (register_get (registers s) 15 + 1),
        cc := cc1, memory := m1\<rparr>"
    and fetch2: "memory_get env m1 (register_get (registers s1) 15) = Inr w2"
    and decode2: "decode env w2 = Inr i2"
    and pass2: "flag_and env cc1 (cond i2) \<noteq> NEVER env"
    and op2: "op i2 = LOAD"
    and idx2: "tuple_index (reg_target i2) = Inr t2" "tuple_index (reg_src1 i2) = Inr a2"
      "tuple_index (reg_src2 i2) = Inr b2"
    and alu2: "alu_exec env (op i2) (register_get (registers s1) a2)
        (register_get (registers s1) b2 + offset i2) = Inr (addr, cc2)"
    and t2: "t2 \<noteq> 0"
    by blast+
  show first: "snd (step env s) = Inr s1"
    by (simp add: store v [symmetric] put and_then_simps s1_def)
  have s1: "memory s1 = m1" "cc s1 = cc1"
    by (simp_all add: s1_def)
  have "memory_get env (memory s1) (register_get (registers s1) 15) = Inr w2"
    by (simp add: s1 fetch2)
  moreover have "flag_and env (cc s1) (cond i2) \<noteq> NEVER env"
    by (simp add: s1 pass2)
  ultimately have "snd (step env s1) =
      Inr (s1\<lparr>registers := register_put (registers s1) 15 (register_get (registers s1) 15 + 1),
              cc := cc2,
              registers := register_put
                (register_put (registers s1) 15 (register_get (registers s1) 15 + 1)) t2 v\<rparr>)"
    using decode2 op2 idx2 alu2
    by (simp add: step_fetched execute_passed [OF _ _ _ _ _ refl] s1 reread and_then_simps)
  with t2 show "\<exists>s2. snd (step env s1) = Inr s2 \<and> register_get (registers s2) t2 = v"
    by (simp add: register_put_get)
qed

theorem store_then_load_witness:
  "memory_get demo_env (memory (demo_cpu 1 2)) (register_get (registers (demo_cpu 1 2)) 15)
     = Inr 1
   \<and> decode demo_env 1 =
       Inr \<lparr>cond = 15, op = STORE, reg_target = 1, reg_src1 = 0, reg_src2 = 0, offset = 100\<rparr>
   \<and> decode demo_env 2 =
       Inr \<lparr>cond = 15, op = LOAD, reg_target = 2, reg_src1 = 0, reg_src2 = 0, offset = 100\<rparr>
   \<and> flag_and demo_env (cc (demo_cpu 1 2)) 15 \<noteq> NEVER demo_env
   \<and> flag_and demo_env 4 15 \<noteq> NEVER demo_env
   \<and> tuple_index 0 = Inr 0 \<and> tuple_index 1 = Inr 1 \<and> tuple_index 2 = Inr 2
   \<and> alu_exec demo_env STORE 0 (0 + 100) = Inr (100, 4)
   \<and> alu_exec demo_env LOAD 0 (0 + 100) = Inr (100, 4)
   \<and> (2::nat) \<noteq> 0
   \<and> register_of 1 (Inr (demo_cpu 1 2)) = Inr 7
   \<and> register_of 2 (Inr (demo_cpu 1 2)) = Inr 0
   \<and> map_sum id memory (after_step demo_env (Inr (demo_cpu 1 2)))
       = Inr ((memory (demo_cpu 1 2))(100 := 7))
   \<and> register_of 2 (after_step demo_env (after_step demo_env (Inr (demo_cpu 1 2)))) = Inr 7"
proof -
  let ?i1 = "\<lparr>cond = 15, op = STORE, reg_target = 1, reg_src1 = 0, reg_src2 = 0,
      offset = 100 :: int\<rparr> :: nat Instruction"
  let ?i2 = "\<lparr>cond = 15, op = LOAD, reg_target = 2, reg_src1 = 0, reg_src2 = 0,
      offset = 100 :: int\<rparr> :: nat Instruction"
  let ?s = "demo_cpu 1 2"
  let ?m1 = "(memory ?s)(100 := 7)"
  let ?s1 = "?s\<lparr>registers := register_put (registers ?s) 15 (register_get (registers ?s) 15 + 1),
      cc := 4, memory := ?m1\<rparr>"
  have pass1: "flag_and demo_env (cc ?s) (cond ?i1) \<noteq> NEVER demo_env"
    by (simp add: demo_simps)
  have op1: "op ?i1 = STORE"
    by simp
  have idx1: "tuple_index (reg_target ?i1) = Inr 1" "tuple_index (reg_src1 ?i1) = Inr 0"
    "tuple_index (reg_src2 ?i1) = Inr 0"
    by (simp_all add: tuple_index_def)
  have alu1: "alu_exec demo_env (op ?i1) (register_get (registers ?s) 0)
      (register_get (registers ?s) 0 + offset ?i1) = Inr (100, 4)"
    by (simp add: demo_simps)
  have v: "7 = register_get
      (register_put (registers ?s) 15 (register_get (registers ?s) 15 + 1)) 1"
    by (simp add: demo_simps)
  have put: "memory_put demo_env (memory ?s) 100 7 = Inr ?m1"
    by (simp add: demo_collaborators)
  have reread: "memory_get demo_env ?m1 100 = Inr 7"
    by (simp add: demo_collaborators)
  have fetch2: "memory_get demo_env ?m1 (register_get (registers ?s1) 15) = Inr 2"
    by (simp add: demo_simps)
  have pass2: "flag_and demo_env 4 (cond ?i2) \<noteq> NEVER demo_env"
    by (simp add: demo_simps)
  have op2: "op ?i2 = LOAD"
    by simp
  have idx2: "tuple_index (reg_target ?i2) = Inr 2" "tuple_index (reg_src1 ?i2) = Inr 0"
    "tuple_index (reg_src2 ?i2) = Inr 0"
    by (simp_all add: tuple_index_def)
  have alu2: "alu_exec demo_env (op ?i2) (register_get (registers ?s1) 0)
      (register_get (registers ?s1) 0 + offset ?i2) = Inr (100, 4)"
    by (simp add: demo_simps)
  have t2: "(2::nat) \<noteq> 0"
    by simp
  note c = store_then_load [OF demo_fetch demo_decode(1) pass1 op1 idx1 alu1,
      of 7 ?m1 ?s1 2 ?i2 2 0 0 4]
  from c v put reread fetch2 demo_decode(2) pass2 op2 idx2 alu2 t2
  obtain s2 where first: "snd (step demo_env ?s) = Inr ?s1"
    and "snd (step demo_env ?s1) = Inr s2"
    and "register_get (registers s2) 2 = 7"
    by blast
  then have loaded:
    "register_of 2 (after_step demo_env (after_step demo_env (Inr ?s))) = Inr 7"
    by (simp add: register_of_def after_step_def and_then_simps)
  have stored: "map_sum id memory (after_step demo_env (Inr ?s)) = Inr ?m1"
    by (simp add: after_step_def and_then_simps first)
  from loaded stored pass1 pass2 show ?thesis
    by (simp add: register_of_def and_then_simps demo_simps)
qed

theorem load_into_register_0_counterexample:
  "decode demo_env 1 =
     Inr \<lparr>cond = 15, op = STORE, reg_target = 1, reg_src1 = 0, reg_src2 = 0, offset = 100\<rparr>
   \<and> decode demo_env 3 =
       Inr \<lparr>cond = 15, op = LOAD, reg_target = 0, reg_src1 = 0, reg_src2 = 0, offset = 100\<rparr>
   \<and> register_of 15 (Inr (demo_cpu 1 3)) = Inr 0
   \<and> register_of 1 (Inr (demo_cpu 1 3)) = Inr 7
   \<and> map_sum id memory (after_step demo_env (Inr (demo_cpu 1 3)))
       = Inr ((memory (demo_cpu 1 3))(100 := 7))
   \<and> register_of 15 (after_step demo_env (Inr (demo_cpu 1 3))) = Inr 1
   \<and> register_of 15 (after_step demo_env (after_step demo_env (Inr (demo_cpu 1 3)))) = Inr 2
   \<and> register_of 0 (after_step demo_env (after_step demo_env (Inr (demo_cpu 1 3)))) = Inr 0"
proof -
  let ?s = "demo_cpu 1 3"
  let ?i3 = "\<lparr>cond = 15, op = LOAD, reg_target = 0, reg_src1 = 0, reg_src2 = 0,
      offset = 100 :: int\<rparr> :: nat Instruction"
  let ?s1 = "?s\<lparr>registers := register_put (registers ?s) 15 (register_get (registers ?s) 15 + 1),
      cc := 4, memory := (memory ?s)(100 := 7)\<rparr>"
  have first: "snd (step demo_env ?s) = Inr ?s1"
    by (simp add: step_fetched [OF demo_fetch demo_decode(1)] execute_def and_then_simps
        demo_simps)
  have fetch2: "memory_get demo_env (memory ?s1) (register_get (registers ?s1) 15) = Inr 3"
    by (simp add: demo_simps)
  have second: "snd (step demo_env ?s1) = execute demo_env ?s1 ?i3"
    by (simp only: step_fetched [OF fetch2 demo_decode(3)] snd_conv)
  have one: "after_step demo_env (Inr ?s) = Inr ?s1"
    by (simp only: after_step_def and_then_simps first)
  have two: "after_step demo_env (after_step demo_env (Inr ?s)) = execute demo_env ?s1 ?i3"
    by (simp only: one) (simp only: after_step_def and_then_simps second)
  have "map_sum id memory (after_step demo_env (Inr ?s)) = Inr ((memory ?s)(100 := 7))"
    by (simp only: one) simp
  moreover have "register_of 15 (after_step demo_env (Inr ?s)) = Inr 1"
    by (simp only: one) (simp add: register_of_def and_then_simps demo_simps)
  moreover have "register_of 15 (after_step demo_env (after_step demo_env (Inr ?s))) = Inr 2"
    by (simp only: two) (simp add: register_of_def execute_def and_then_simps demo_simps)
  moreover have "register_of 0 (after_step demo_env (after_step demo_env (Inr ?s))) = Inr 0"
    by (simp only: two) (simp add: register_of_def execute_def and_then_simps demo_simps)
  moreover have "register_of 15 (Inr ?s :: error + (nat, int \<Rightarrow> int) CPU) = Inr 0"
    "register_of 1 (Inr ?s :: error + (nat, int \<Rightarrow> int) CPU) = Inr 7"
    by (simp_all add: register_of_def and_then_simps demo_simps)
  ultimately show ?thesis
    using demo_decode(1) demo_decode(3) by (intro conjI)
qed

end
